theory Spec2Isabelle
  imports Main "HOL-Library.Multiset"
begin

section \<open>The metadata store (package storage)\<close>

text \<open>
  The tables of \<^verbatim>\<open>migrate\<close> in db.go, as far as the video pipeline reads and writes
  them. A timestamp is the value of SQLite's \<^verbatim>\<open>CURRENT_TIMESTAMP\<close>, counted in seconds.
  The schema declares foreign keys, but the connection is opened without the
  \<^verbatim>\<open>foreign_keys\<close> pragma, so only the primary keys are enforced.
\<close>

type_synonym timestamp = nat

record Video =
  ID :: string
  ConversationID :: string
  Uploader :: string
  Filename :: string
  Status :: string
  UploadedAt :: timestamp

record Member =
  member_conversation_id :: string
  member_username :: string
  joined_at :: timestamp

record DB =
  members :: "Member list"
  videos :: "Video list"

text \<open>
  \<^verbatim>\<open>db.Exec\<close> and \<^verbatim>\<open>db.Query\<close> return an error when the driver cannot run the
  statement (closed handle, I/O error, locked file) or when the statement violates a
  constraint. Whether the driver runs the statement is not decided by the tables, so
  every operation takes it as its first argument: \<open>True\<close> when the statement is run.
\<close>

datatype db_error = DriverError | ConstraintError

definition has_video :: "DB \<Rightarrow> string \<Rightarrow> bool" where
  "has_video db i = (i \<in> set (map ID (videos db)))"

definition CreateVideo ::
  "bool \<Rightarrow> timestamp \<Rightarrow> DB \<Rightarrow> string \<Rightarrow> string \<Rightarrow> string \<Rightarrow> string \<Rightarrow> db_error + DB" where
  "CreateVideo runs now db i conversationID uploader filename =
     (if \<not> runs then Inl DriverError
      else if has_video db i then Inl ConstraintError
      else Inr (db\<lparr>videos := videos db @
                  [\<lparr>ID = i, ConversationID = conversationID, Uploader = uploader,
                    Filename = filename, Status = ''pending'', UploadedAt = now\<rparr>]\<rparr>))"

definition set_status :: "string \<Rightarrow> string \<Rightarrow> Video \<Rightarrow> Video" where
  "set_status i s v = (if ID v = i then v\<lparr>Status := s\<rparr> else v)"

definition UpdateVideoStatus :: "bool \<Rightarrow> DB \<Rightarrow> string \<Rightarrow> string \<Rightarrow> db_error + DB" where
  "UpdateVideoStatus runs db i s =
     (if \<not> runs then Inl DriverError
      else Inr (db\<lparr>videos := map (set_status i s) (videos db)\<rparr>))"

text \<open>
  \<^verbatim>\<open>ORDER BY uploaded_at DESC\<close>: a sort on the negated timestamp. SQL leaves the order
  of rows with equal timestamps open; the stable sort used here keeps them in insertion
  order, and no theorem below depends on that choice.
\<close>

definition newest_first :: "Video list \<Rightarrow> Video list" where
  "newest_first vs = sort_key (\<lambda>v. - int (UploadedAt v)) vs"

definition GetVideosByConversation :: "bool \<Rightarrow> DB \<Rightarrow> string \<Rightarrow> db_error + Video list" where
  "GetVideosByConversation runs db conversationID =
     (if \<not> runs then Inl DriverError
      else Inr (newest_first (filter (\<lambda>v. ConversationID v = conversationID) (videos db))))"

definition is_row :: "string \<Rightarrow> string \<Rightarrow> Member \<Rightarrow> bool" where
  "is_row conversationID username m =
     (member_conversation_id m = conversationID \<and> member_username m = username)"

definition IsMember :: "bool \<Rightarrow> DB \<Rightarrow> string \<Rightarrow> string \<Rightarrow> db_error + bool" where
  "IsMember runs db conversationID username =
     (if \<not> runs then Inl DriverError
      else Inr (0 < length (filter (is_row conversationID username) (members db))))"

text \<open>
  \<^verbatim>\<open>INSERT OR IGNORE\<close>: a row whose primary key (conversation, user) is already in
  the table is skipped without an error, and the stored row keeps its \<open>joined_at\<close>.
\<close>

definition AddMember :: "bool \<Rightarrow> timestamp \<Rightarrow> DB \<Rightarrow> string \<Rightarrow> string \<Rightarrow> db_error + DB" where
  "AddMember runs now db conversationID username =
     (if \<not> runs then Inl DriverError
      else if list_ex (is_row conversationID username) (members db) then Inr db
      else Inr (db\<lparr>members := members db @
                  [\<lparr>member_conversation_id = conversationID, member_username = username,
                    joined_at = now\<rparr>]\<rparr>))"

section \<open>Sessions (package auth)\<close>

text \<open>
  The session store maps a token to the user name of its entry (nothing reads
  \<^verbatim>\<open>createdAt\<close>). Strings are lists of bytes; \<^verbatim>\<open>strings.TrimSpace\<close> and
  \<^verbatim>\<open>strings.ToLower\<close> are modelled on their ASCII range.
\<close>

definition isSpace :: "char \<Rightarrow> bool" where
  "isSpace c = (of_char c \<in> set [9, 10, 11, 12, 13, 32 :: nat])"

definition TrimSpace :: "string \<Rightarrow> string" where
  "TrimSpace s = rev (dropWhile isSpace (rev (dropWhile isSpace s)))"

definition FromRequest :: "string option \<Rightarrow> string option" where
  "FromRequest cookie =
     (case cookie of
        None \<Rightarrow> None
      | Some v \<Rightarrow> (let token = TrimSpace v in if token = [] then None else Some token))"

definition Get :: "(string \<rightharpoonup> string) \<Rightarrow> string \<Rightarrow> string option" where
  "Get store token = store token"

definition hexdigit :: "nat \<Rightarrow> char" where
  "hexdigit n = ''0123456789abcdef'' ! n"

definition EncodeToString :: "string \<Rightarrow> string" where
  "EncodeToString bs =
     concat (map (\<lambda>b. [hexdigit (of_char b div 16), hexdigit (of_char b mod 16)]) bs)"

text \<open>
  \<^verbatim>\<open>Store.Create\<close>: the argument \<open>rnd\<close> is what \<^verbatim>\<open>rand.Read\<close> stored into the
  32-byte buffer, \<open>None\<close> when it failed.
\<close>

definition Create ::
  "string option \<Rightarrow> (string \<rightharpoonup> string) \<Rightarrow> string \<Rightarrow> (string \<rightharpoonup> string) \<times> string option" where
  "Create rnd store username =
     (case rnd of
        None \<Rightarrow> (store, None)
      | Some b \<Rightarrow> (store(EncodeToString b \<mapsto> username), Some (EncodeToString b)))"

section \<open>The video handlers (package videos)\<close>

definition maxRetries :: nat where
  "maxRetries = 3"

text \<open>A \<^verbatim>\<open>time.Duration\<close> counts nanoseconds.\<close>

definition Second :: nat where
  "Second = 1000000000"

definition retryDelay :: nat where
  "retryDelay = 2 * Second"

definition allowedExtensions :: "string \<Rightarrow> bool" where
  "allowedExtensions ext = (ext \<in> set [''.mp4'', ''.mov'', ''.avi'', ''.mkv''])"

text \<open>
  \<^verbatim>\<open>filepath.Ext\<close> scans the path from its end up to the last separator and returns
  the suffix that starts at the last dot of the final element, or the empty string.
  \<^verbatim>\<open>filepath.Join\<close> is modelled on clean, non-empty components, where it puts one
  separator between them.
\<close>

definition Ext :: "string \<Rightarrow> string" where
  "Ext path =
     (let base = takeWhile (\<lambda>c. c \<noteq> CHR ''/'') (rev path)
      in if CHR ''.'' \<in> set base
         then CHR ''.'' # rev (takeWhile (\<lambda>c. c \<noteq> CHR ''.'') base)
         else [])"

definition lower :: "char \<Rightarrow> char" where
  "lower c = (if 65 \<le> (of_char c :: nat) \<and> (of_char c :: nat) \<le> 90
              then char_of (of_char c + (32 :: nat)) else c)"

definition ToLower :: "string \<Rightarrow> string" where
  "ToLower s = map lower s"

definition Join :: "string \<Rightarrow> string \<Rightarrow> string" where
  "Join dir name = dir @ ''/'' @ name"

text \<open>
  The state the handlers act on: the files and directories under the videos directory
  (a path and the bytes stored there), the database and the session store.
  \<^verbatim>\<open>Handler.VideosDir\<close> never changes and is a parameter. The temporary files that
  the multipart parser of net/http keeps for large bodies are outside this state.

  A response is its status code and its body. \<^verbatim>\<open>http.Error\<close> writes the message
  as plain text (the newline it appends is left out); the two JSON bodies are kept as
  their fields, the upload time as the timestamp that \<^verbatim>\<open>Format(time.RFC3339)\<close>
  prints.
\<close>

record World =
  files :: "string \<rightharpoonup> string"
  dirs :: "string set"
  database :: DB
  sessions :: "string \<rightharpoonup> string"

datatype Body =
    Text string
  | UploadJSON string string
  | VideosJSON "(string \<times> string \<times> string \<times> timestamp) list"

datatype Response = Response nat Body

fun StatusCode :: "Response \<Rightarrow> nat" where
  "StatusCode (Response c b) = c"

definition Error :: "string \<Rightarrow> nat \<Rightarrow> Response" where
  "Error msg c = Response c (Text msg)"

definition StatusOK :: nat where "StatusOK = 200"
definition StatusAccepted :: nat where "StatusAccepted = 202"
definition StatusBadRequest :: nat where "StatusBadRequest = 400"
definition StatusUnauthorized :: nat where "StatusUnauthorized = 401"
definition StatusForbidden :: nat where "StatusForbidden = 403"
definition StatusInternalServerError :: nat where "StatusInternalServerError = 500"

text \<open>
  An upload request after \<^verbatim>\<open>ParseMultipartForm\<close>: \<open>form\<close> is \<open>None\<close> when the body
  is larger than \<^verbatim>\<open>maxUploadSize\<close> or malformed; \<open>form_conversation_id\<close> is what
  \<^verbatim>\<open>FormValue("conversation_id")\<close> returns (empty when absent), \<open>form_file\<close> the
  declared name and the content of the part \<^verbatim>\<open>file\<close>, if there is one.
\<close>

record Form =
  form_conversation_id :: string
  form_file :: "(string \<times> string) option"

record UploadRequest =
  cookie :: "string option"
  form :: "Form option"

record ListRequest =
  list_cookie :: "string option"
  query_conversation_id :: string

text \<open>
  What the operating system and the database do during one call of \<^verbatim>\<open>Upload\<close> is
  not decided by the handler. Each outcome is a field: whether the membership query
  and the insert are run by the driver, the 16 bytes of \<^verbatim>\<open>rand.Read\<close> (or its
  failure), whether \<^verbatim>\<open>MkdirAll\<close>, \<^verbatim>\<open>os.Create\<close> and the \<^verbatim>\<open>os.Remove\<close> of the
  cleanup succeed, after how many bytes \<^verbatim>\<open>io.Copy\<close> fails (\<open>None\<close>: it does not),
  and the database's clock.
\<close>

record UploadEnv =
  is_member_runs :: bool
  rand_read :: "string option"
  mkdir_all_ok :: bool
  create_ok :: bool
  copy_fails_at :: "nat option"
  create_video_runs :: bool
  cleanup_ok :: bool
  clock :: timestamp

record ListEnv =
  list_is_member_runs :: bool
  list_query_runs :: bool

record Job =
  job_video_id :: string
  job_input :: string
  job_output :: string

text \<open>The message \<^verbatim>\<open>'conversation_id' is required\<close>; byte 39 is the single quote.\<close>

definition conversation_id_required :: string where
  "conversation_id_required = char_of (39 :: nat) # ''conversation_id'' @ char_of (39 :: nat) # '' is required''"

definition requireSession :: "World \<Rightarrow> string option \<Rightarrow> Response + string" where
  "requireSession w c =
     (case FromRequest c of
        None \<Rightarrow> Inl (Error ''unauthorized'' StatusUnauthorized)
      | Some token \<Rightarrow>
          (case Get (sessions w) token of
             None \<Rightarrow> Inl (Error ''unauthorized'' StatusUnauthorized)
           | Some username \<Rightarrow> Inr username))"

definition MkdirAll :: "bool \<Rightarrow> World \<Rightarrow> string \<Rightarrow> World \<times> bool" where
  "MkdirAll ok w d = (if ok then (w\<lparr>dirs := insert d (dirs w)\<rparr>, True) else (w, False))"

text \<open>
  \<^verbatim>\<open>os.Remove\<close> fails on a path that does not exist; the second component of the
  result is \<open>True\<close> when the error is nil. The same convention holds for
  \<^verbatim>\<open>saveFile\<close>, which creates (or truncates) the file and then copies the stream
  into it; the deferred \<^verbatim>\<open>Close\<close> leaves what was written on disk.
\<close>

definition Remove :: "bool \<Rightarrow> World \<Rightarrow> string \<Rightarrow> World \<times> bool" where
  "Remove ok w p =
     (if ok \<and> files w p \<noteq> None then (w\<lparr>files := (files w)(p := None)\<rparr>, True)
      else (w, False))"

definition saveFile :: "bool \<Rightarrow> nat option \<Rightarrow> World \<Rightarrow> string \<Rightarrow> string \<Rightarrow> World \<times> bool" where
  "saveFile created failsAt w src destPath =
     (if \<not> created then (w, False)
      else (case failsAt of
              None \<Rightarrow> (w\<lparr>files := (files w)(destPath \<mapsto> src)\<rparr>, True)
            | Some n \<Rightarrow> (w\<lparr>files := (files w)(destPath \<mapsto> take n src)\<rparr>, False)))"

definition generateID :: "string option \<Rightarrow> string option" where
  "generateID rnd = map_option EncodeToString rnd"

text \<open>
  \<^verbatim>\<open>Upload\<close> returns the response, the state it leaves, and the transcode worker it
  started with \<^verbatim>\<open>go h.transcode(...)\<close>, if any: the worker has not run when the
  handler returns.
\<close>

definition Upload ::
  "string \<Rightarrow> UploadEnv \<Rightarrow> World \<Rightarrow> UploadRequest \<Rightarrow> Response \<times> World \<times> Job option" where
  "Upload videosDir env w r =
     (case requireSession w (cookie r) of
        Inl resp \<Rightarrow> (resp, w, None)
      | Inr username \<Rightarrow>
     (case form r of
        None \<Rightarrow> (Error ''request too large or malformed'' StatusBadRequest, w, None)
      | Some f \<Rightarrow>
     (let conversationID = form_conversation_id f in
      if conversationID = [] then
        (Error conversation_id_required StatusBadRequest, w, None)
      else
     (case IsMember (is_member_runs env) (database w) conversationID username of
        Inl e \<Rightarrow> (Error ''internal error'' StatusInternalServerError, w, None)
      | Inr isMember \<Rightarrow>
      if \<not> isMember then (Error ''forbidden'' StatusForbidden, w, None)
      else
     (case form_file f of
        None \<Rightarrow> (Error ''file is required'' StatusBadRequest, w, None)
      | Some (filename, content) \<Rightarrow>
     (let ext = ToLower (Ext filename) in
      if \<not> allowedExtensions ext then
        (Error (''unsupported file type: '' @ ext) StatusBadRequest, w, None)
      else
     (case generateID (rand_read env) of
        None \<Rightarrow> (Error ''internal error'' StatusInternalServerError, w, None)
      | Some videoID \<Rightarrow>
     (let convDir = Join videosDir conversationID;
          (w1, made) = MkdirAll (mkdir_all_ok env) w convDir
      in if \<not> made then (Error ''internal error'' StatusInternalServerError, w1, None)
      else
     (let originalPath = Join convDir (''original_'' @ videoID @ ext);
          outputPath = Join convDir (videoID @ ''.mp4'');
          (w2, saved) = saveFile (create_ok env) (copy_fails_at env) w1 content originalPath
      in if \<not> saved then (Error ''internal error'' StatusInternalServerError, w2, None)
      else
     (case CreateVideo (create_video_runs env) (clock env) (database w2)
             videoID conversationID username outputPath of
        Inl e \<Rightarrow>
          (Error ''internal error'' StatusInternalServerError,
           fst (Remove (cleanup_ok env) w2 originalPath), None)
      | Inr db' \<Rightarrow>
          (Response StatusAccepted (UploadJSON videoID ''pending''),
           w2\<lparr>database := db'\<rparr>,
           Some \<lparr>job_video_id = videoID, job_input = originalPath,
                 job_output = outputPath\<rparr>)))))))))))"

definition List_videos :: "ListEnv \<Rightarrow> World \<Rightarrow> ListRequest \<Rightarrow> Response \<times> World" where
  "List_videos env w r =
     (case requireSession w (list_cookie r) of
        Inl resp \<Rightarrow> (resp, w)
      | Inr username \<Rightarrow>
     (let conversationID = query_conversation_id r in
      if conversationID = [] then
        (Error conversation_id_required StatusBadRequest, w)
      else
     (case IsMember (list_is_member_runs env) (database w) conversationID username of
        Inl e \<Rightarrow> (Error ''internal error'' StatusInternalServerError, w)
      | Inr isMember \<Rightarrow>
      if \<not> isMember then (Error ''forbidden'' StatusForbidden, w)
      else
     (case GetVideosByConversation (list_query_runs env) (database w) conversationID of
        Inl e \<Rightarrow> (Error ''internal error'' StatusInternalServerError, w)
      | Inr vs \<Rightarrow>
          (Response StatusOK
             (VideosJSON (map (\<lambda>v. (ID v, Uploader v, Status v, UploadedAt v)) vs)), w)))))"


section \<open>The transcode worker\<close>

text \<open>
  One call of \<^verbatim>\<open>cmd.CombinedOutput\<close> on ffmpeg either exits with status 0, having
  written the converted stream to the output path (the flag \<^verbatim>\<open>-y\<close> overwrites), or
  fails, leaving the output path as it was or holding a partial file. Which of these
  happens at each attempt, whether \<^verbatim>\<open>os.Remove\<close> succeeds and whether the driver runs
  the status update are the environment of one worker run.
\<close>

datatype FfmpegResult = Exit0 string | ExitError "string option"

fun succeeded :: "FfmpegResult \<Rightarrow> bool" where
  "succeeded (Exit0 out) = True"
| "succeeded (ExitError part) = False"

record TranscodeEnv =
  ffmpeg :: "nat \<Rightarrow> FfmpegResult"
  remove_ok :: bool
  update_runs :: bool

definition run_ffmpeg :: "FfmpegResult \<Rightarrow> World \<Rightarrow> string \<Rightarrow> World \<times> bool" where
  "run_ffmpeg res w outputPath =
     (case res of
        Exit0 out \<Rightarrow> (w\<lparr>files := (files w)(outputPath \<mapsto> out)\<rparr>, True)
      | ExitError None \<Rightarrow> (w, False)
      | ExitError (Some part) \<Rightarrow> (w\<lparr>files := (files w)(outputPath \<mapsto> part)\<rparr>, False))"

definition write_status :: "bool \<Rightarrow> World \<Rightarrow> string \<Rightarrow> string \<Rightarrow> World \<times> bool" where
  "write_status runs w i s =
     (case UpdateVideoStatus runs (database w) i s of
        Inl e \<Rightarrow> (w, False)
      | Inr db' \<Rightarrow> (w\<lparr>database := db'\<rparr>, True))"

text \<open>
  What a worker run does, in order: each ffmpeg call with its attempt number, each
  \<^verbatim>\<open>time.Sleep\<close> with its duration, the removal of a file and the status update, the
  last two with their success (\<open>False\<close>: the error was logged).
\<close>

datatype Event =
    Convert nat
  | Sleep nat
  | RemoveFile string bool
  | SetStatus string string bool

function transcode_loop ::
  "TranscodeEnv \<Rightarrow> string \<Rightarrow> string \<Rightarrow> string \<Rightarrow> nat \<Rightarrow> World \<times> Event list \<Rightarrow> World \<times> Event list" where
  "transcode_loop env videoID inputPath outputPath attempt (w, tr) =
     (if attempt \<le> maxRetries then
        (let (w1, converted) = run_ffmpeg (ffmpeg env attempt) w outputPath in
         if converted then
           (let (w2, removed) = Remove (remove_ok env) w1 inputPath;
                (w3, updated) = write_status (update_runs env) w2 videoID ''ready''
            in (w3, tr @ [Convert attempt, RemoveFile inputPath removed,
                          SetStatus videoID ''ready'' updated]))
         else
           transcode_loop env videoID inputPath outputPath (attempt + 1)
             (w1, tr @ [Convert attempt] @ (if attempt < maxRetries then [Sleep retryDelay] else [])))
      else
        (let (w1, updated) = write_status (update_runs env) w videoID ''error''
         in (w1, tr @ [SetStatus videoID ''error'' updated])))"
  by pat_completeness auto
termination
  by (relation "measure (\<lambda>(env, videoID, inputPath, outputPath, attempt, st). Suc maxRetries - attempt)") auto

definition transcode :: "TranscodeEnv \<Rightarrow> World \<Rightarrow> string \<Rightarrow> string \<Rightarrow> string \<Rightarrow> World \<times> Event list" where
  "transcode env w videoID inputPath outputPath =
     transcode_loop env videoID inputPath outputPath 1 (w, [])"

text \<open>The number of ffmpeg calls in a worker's run.\<close>

fun is_convert :: "Event \<Rightarrow> bool" where
  "is_convert (Convert n) = True"
| "is_convert e = False"

definition attempts :: "Event list \<Rightarrow> nat" where
  "attempts tr = length (filter is_convert tr)"

section \<open>The running server\<close>

text \<open>
  The server's state is the world together with the workers that \<^verbatim>\<open>Upload\<close> has
  started and that have not finished. The routes of main.go change it: an upload, a
  listing, and the two effects the conversation handlers have on the state modelled
  here (\<^verbatim>\<open>AddMember\<close> and \<^verbatim>\<open>Sessions.Create\<close>). A worker writes to the database
  once, at its end, so a worker run is one step.
\<close>

record Server =
  world :: World
  workers :: "Job list"

datatype Action =
    DoUpload UploadEnv UploadRequest
  | DoList ListEnv ListRequest
  | DoAddMember bool timestamp string string
  | DoCreateSession "string option" string
  | DoWorker nat TranscodeEnv

definition step :: "string \<Rightarrow> Server \<Rightarrow> Action \<Rightarrow> Server" where
  "step videosDir s a =
     (case a of
        DoUpload env r \<Rightarrow>
          (case Upload videosDir env (world s) r of
             (resp, w', None) \<Rightarrow> s\<lparr>world := w'\<rparr>
           | (resp, w', Some j) \<Rightarrow> s\<lparr>world := w', workers := workers s @ [j]\<rparr>)
      | DoList env r \<Rightarrow> s\<lparr>world := snd (List_videos env (world s) r)\<rparr>
      | DoAddMember runs now conversationID username \<Rightarrow>
          (case AddMember runs now (database (world s)) conversationID username of
             Inl e \<Rightarrow> s
           | Inr db' \<Rightarrow> s\<lparr>world := (world s)\<lparr>database := db'\<rparr>\<rparr>)
      | DoCreateSession rnd username \<Rightarrow>
          s\<lparr>world := (world s)\<lparr>sessions := fst (Create rnd (sessions (world s)) username)\<rparr>\<rparr>
      | DoWorker k env \<Rightarrow>
          (if k < length (workers s) then
             (let j = workers s ! k
              in \<lparr>world = fst (transcode env (world s) (job_video_id j) (job_input j) (job_output j)),
                  workers = take k (workers s) @ drop (Suc k) (workers s)\<rparr>)
           else s))"

text \<open>
  The server starts with no worker. Every later state is reached by the actions above.
\<close>

definition initial :: "Server \<Rightarrow> bool" where
  "initial s = (workers s = [])"

inductive reachable :: "string \<Rightarrow> Server \<Rightarrow> bool" for videosDir :: string where
  reach_start: "initial s \<Longrightarrow> reachable videosDir s"
| reach_step: "reachable videosDir s \<Longrightarrow> reachable videosDir (step videosDir s a)"

text \<open>The status the table holds for an id, if it holds the id.\<close>

definition statuses :: "Video list \<Rightarrow> string \<rightharpoonup> string" where
  "statuses vs = map_of (map (\<lambda>v. (ID v, Status v)) vs)"

definition status_of :: "Server \<Rightarrow> string \<Rightarrow> string option" where
  "status_of s i = statuses (videos (database (world s))) i"

definition worker_ids :: "Server \<Rightarrow> string list" where
  "worker_ids s = map job_video_id (workers s)"

text \<open>
  In every state the server reaches, no two workers are for the same video, and the
  row of each worker's video is there with the status \<open>pending\<close>.
\<close>

definition consistent :: "Server \<Rightarrow> bool" where
  "consistent s =
     (distinct (worker_ids s)
      \<and> list_all (\<lambda>i. status_of s i = Some ''pending'') (worker_ids s))"

text \<open>What a reader of the database sees: the row with a given id.\<close>

definition find_video :: "DB \<Rightarrow> string \<Rightarrow> Video option" where
  "find_video db i = find (\<lambda>v. ID v = i) (videos db)"

abbreviation table :: "Server \<Rightarrow> Video list" where
  "table s \<equiv> videos (database (world s))"

section \<open>A concrete scenario\<close>

text \<open>
  The setting of the handler tests: the user alice holds a session and has joined the
  conversation \<open>conv-1\<close>; nothing has been uploaded yet. The upload is the file
  \<open>test.mp4\<close>, and in \<open>calm\<close> no system call and no statement fails.
\<close>

definition alice_world :: World where
  "alice_world =
     \<lparr>files = Map.empty, dirs = {},
      database = \<lparr>members = [\<lparr>member_conversation_id = ''conv-1'', member_username = ''alice'',
                               joined_at = 10\<rparr>],
                  videos = []\<rparr>,
      sessions = [''token-a'' \<mapsto> ''alice'']\<rparr>"

definition calm :: UploadEnv where
  "calm =
     \<lparr>is_member_runs = True, rand_read = Some ''0123456789abcdef'', mkdir_all_ok = True,
      create_ok = True, copy_fails_at = None, create_video_runs = True, cleanup_ok = True,
      clock = 20\<rparr>"

definition upload_of :: "string \<Rightarrow> string \<Rightarrow> UploadRequest" where
  "upload_of conversationID filename =
     \<lparr>cookie = Some ''token-a'',
      form = Some \<lparr>form_conversation_id = conversationID,
                   form_file = Some (filename, ''fake video content'')\<rparr>\<rparr>"

definition listing_of :: "string \<Rightarrow> ListRequest" where
  "listing_of conversationID =
     \<lparr>list_cookie = Some ''token-a'', query_conversation_id = conversationID\<rparr>"

definition calm_list :: ListEnv where
  "calm_list = \<lparr>list_is_member_runs = True, list_query_runs = True\<rparr>"

definition anonymous_upload :: UploadRequest where
  "anonymous_upload = \<lparr>cookie = None, form = None\<rparr>"

definition anonymous_listing :: ListRequest where
  "anonymous_listing = \<lparr>list_cookie = None, query_conversation_id = ''conv-1''\<rparr>"

text \<open>The id that \<^verbatim>\<open>generateID\<close> makes of the 16 bytes in \<open>calm\<close>.\<close>

definition sample_id :: string where
  "sample_id = ''30313233343536373839616263646566''"

text \<open>
  The state after alice's upload of \<open>test.mp4\<close> was accepted, the worker started for
  it, and three environments of a worker run: ffmpeg fails every time and leaves a
  partial output; ffmpeg fails once and then converts; ffmpeg converts at once but the
  original cannot be removed.
\<close>

definition uploaded_world :: World where
  "uploaded_world =
     fst (snd (Upload ''videos'' calm alice_world (upload_of ''conv-1'' ''test.mp4'')))"

definition sample_job :: Job where
  "sample_job =
     \<lparr>job_video_id = sample_id,
      job_input = ''videos/conv-1/original_'' @ sample_id @ ''.mp4'',
      job_output = ''videos/conv-1/'' @ sample_id @ ''.mp4''\<rparr>"

definition never_converts :: TranscodeEnv where
  "never_converts =
     \<lparr>ffmpeg = (\<lambda>n. ExitError (Some ''partial'')), remove_ok = True, update_runs = True\<rparr>"

definition converts_second :: TranscodeEnv where
  "converts_second =
     \<lparr>ffmpeg = (\<lambda>n. if n = 2 then Exit0 ''converted'' else ExitError None),
      remove_ok = True, update_runs = True\<rparr>"

definition cannot_remove :: TranscodeEnv where
  "cannot_remove =
     \<lparr>ffmpeg = (\<lambda>n. Exit0 ''converted''), remove_ok = False, update_runs = True\<rparr>"

text \<open>The server before and after alice's upload.\<close>

definition fresh_server :: Server where
  "fresh_server = \<lparr>world = alice_world, workers = []\<rparr>"

definition busy_server :: Server where
  "busy_server =
     step ''videos'' fresh_server (DoUpload calm (upload_of ''conv-1'' ''test.mp4''))"

definition served :: Server where
  "served = step ''videos'' busy_server (DoWorker 0 converts_second)"

section \<open>Properties of the metadata store\<close>

lemma set_status_other: "ID v \<noteq> i \<Longrightarrow> set_status i s v = v"
  by (simp add: set_status_def)

lemma map_set_status_absent: "i \<notin> set (map ID vs) \<Longrightarrow> map (set_status i s) vs = vs"
  by (induction vs) (auto simp: set_status_def)

text \<open>
  C9, as the code has it: \<^verbatim>\<open>UPDATE ... WHERE id = ?\<close> that matches no row is not an
  error. For an id with no video record, UpdateVideoStatus, when the database runs the
  statement, returns no error and leaves the store as it was.
\<close>

theorem UpdateVideoStatus_unknown_id_succeeds:
  "\<not> has_video db i \<Longrightarrow> UpdateVideoStatus True db i s = Inr db"
  by (simp add: UpdateVideoStatus_def has_video_def map_set_status_absent)

theorem UpdateVideoStatus_unknown_id_succeeds_witness:
  "\<not> has_video \<lparr>members = [], videos = []\<rparr> ''nope''
   \<and> UpdateVideoStatus True \<lparr>members = [], videos = []\<rparr> ''nope'' ''ready''
       = Inr \<lparr>members = [], videos = []\<rparr>"
  using UpdateVideoStatus_unknown_id_succeeds [of "\<lparr>members = [], videos = []\<rparr>" "''nope''" "''ready''"]
  by (simp add: has_video_def)

text \<open>
  C9, as the spec states it, fails: on a store with no video at all, setting the status
  of the id \<open>nope\<close> returns without an error.
\<close>

theorem UpdateVideoStatus_unknown_id_counterexample:
  "\<not> has_video \<lparr>members = [], videos = []\<rparr> ''nope''
   \<and> \<not> isl (UpdateVideoStatus True \<lparr>members = [], videos = []\<rparr> ''nope'' ''ready'')"
  by (simp add: UpdateVideoStatus_def has_video_def)

lemma newest_first_sorted:
  "sorted_wrt (\<lambda>a b. UploadedAt b \<le> UploadedAt a) (newest_first vs)"
proof -
  have "sorted (map (\<lambda>v. - int (UploadedAt v)) (newest_first vs))"
    unfolding newest_first_def by (rule sorted_sort_key)
  then show ?thesis
    by (simp add: sorted_map sorted_wrt_iff_nth_less)
qed

lemma newest_first_mset: "mset (newest_first vs) = mset vs"
  by (simp add: newest_first_def)

text \<open>
  C7: when the database runs the query, GetVideosByConversation returns a list that
  holds exactly the rows of the queried conversation, each as often as the table does
  and whatever its status, and no row of another conversation; in the list every video
  comes before all videos uploaded earlier than it (newest first).
\<close>

theorem GetVideosByConversation_newest_first:
  "\<exists>vs. GetVideosByConversation True db c = Inr vs
       \<and> mset vs = filter_mset (\<lambda>v. ConversationID v = c) (mset (videos db))
       \<and> sorted_wrt (\<lambda>a b. UploadedAt b \<le> UploadedAt a) vs"
  by (simp add: GetVideosByConversation_def newest_first_sorted newest_first_mset)

text \<open>
  C10: adding a member succeeds, and adding the same member to the same conversation
  again succeeds too and returns the store it was given, row for row (the stored
  \<open>joined_at\<close> included); the user is a member afterwards.
\<close>

theorem AddMember_idempotent:
  "\<exists>db1. AddMember True t1 db c u = Inr db1
        \<and> AddMember True t2 db1 c u = Inr db1
        \<and> IsMember True db1 c u = Inr True"
  by (auto simp: AddMember_def IsMember_def list_ex_iff is_row_def filter_empty_conv)

section \<open>Properties of the upload handler\<close>

lemmas status_defs = StatusOK_def StatusAccepted_def StatusBadRequest_def
  StatusUnauthorized_def StatusForbidden_def StatusInternalServerError_def



lemma requireSession_Inl:
  "requireSession w c = Inl resp \<Longrightarrow> resp = Error ''unauthorized'' StatusUnauthorized"
  by (auto simp: requireSession_def split: option.splits)







text \<open>
  C6: in Upload and in List the session check comes first and the membership check
  second, and both come before any change of state. A request without a valid session
  is answered with 401 and changes nothing; a request with a valid session that names a
  conversation for which the membership check finds no membership is answered with
  403, a different status, and changes nothing. An upload that changes anything or
  starts a worker has passed both checks; List changes nothing at all and returns
  videos only after both checks.
\<close>

theorem checks_precede_mutation:
  "(requireSession w (cookie r) = Inl e \<longrightarrow>
      Upload videosDir env w r = (Error ''unauthorized'' StatusUnauthorized, w, None))
 \<and> (requireSession w (list_cookie lr) = Inl e \<longrightarrow>
      List_videos lenv w lr = (Error ''unauthorized'' StatusUnauthorized, w))
 \<and> (requireSession w (cookie r) = Inr u \<and> form r = Some f \<and> form_conversation_id f \<noteq> []
      \<and> IsMember (is_member_runs env) (database w) (form_conversation_id f) u = Inr False \<longrightarrow>
      Upload videosDir env w r = (Error ''forbidden'' StatusForbidden, w, None))
 \<and> (requireSession w (list_cookie lr) = Inr u \<and> query_conversation_id lr \<noteq> []
      \<and> IsMember (list_is_member_runs lenv) (database w) (query_conversation_id lr) u = Inr False \<longrightarrow>
      List_videos lenv w lr = (Error ''forbidden'' StatusForbidden, w))
 \<and> (Upload videosDir env w r = (resp, w', job) \<and> (w' \<noteq> w \<or> job \<noteq> None) \<longrightarrow>
      (\<exists>u f. requireSession w (cookie r) = Inr u \<and> form r = Some f
           \<and> IsMember (is_member_runs env) (database w) (form_conversation_id f) u = Inr True))
 \<and> snd (List_videos lenv w lr) = w
 \<and> (StatusCode (fst (List_videos lenv w lr)) = StatusOK \<longrightarrow>
      (\<exists>u. requireSession w (list_cookie lr) = Inr u
         \<and> IsMember (list_is_member_runs lenv) (database w) (query_conversation_id lr) u = Inr True))
 \<and> StatusUnauthorized \<noteq> StatusForbidden"
  apply (intro conjI impI)
  subgoal by (auto dest!: requireSession_Inl simp: Upload_def)
  subgoal by (auto dest!: requireSession_Inl simp: List_videos_def)
  subgoal by (auto simp: Upload_def Let_def)
  subgoal by (auto simp: List_videos_def Let_def)
  subgoal by (auto simp: Upload_def Let_def split: sum.splits option.splits if_splits)
  subgoal by (auto simp: List_videos_def Let_def split: sum.splits option.splits if_splits)
  subgoal by (auto simp: List_videos_def Let_def Error_def status_defs dest!: requireSession_Inl split: sum.splits option.splits if_splits)
  subgoal by (simp add: status_defs)
  done

theorem checks_precede_mutation_witness:
  "isl (requireSession alice_world (cookie anonymous_upload))
 \<and> Upload ''videos'' calm alice_world anonymous_upload
      = (Error ''unauthorized'' StatusUnauthorized, alice_world, None)
 \<and> isl (requireSession alice_world (list_cookie anonymous_listing))
 \<and> List_videos calm_list alice_world anonymous_listing
      = (Error ''unauthorized'' StatusUnauthorized, alice_world)
 \<and> requireSession alice_world (cookie (upload_of ''conv-2'' ''test.mp4'')) = Inr ''alice''
 \<and> IsMember (is_member_runs calm) (database alice_world) ''conv-2'' ''alice'' = Inr False
 \<and> Upload ''videos'' calm alice_world (upload_of ''conv-2'' ''test.mp4'')
      = (Error ''forbidden'' StatusForbidden, alice_world, None)
 \<and> requireSession alice_world (list_cookie (listing_of ''conv-2'')) = Inr ''alice''
 \<and> IsMember (list_is_member_runs calm_list) (database alice_world) ''conv-2'' ''alice'' = Inr False
 \<and> List_videos calm_list alice_world (listing_of ''conv-2'')
      = (Error ''forbidden'' StatusForbidden, alice_world)
 \<and> snd (snd (Upload ''videos'' calm alice_world (upload_of ''conv-1'' ''test.mp4''))) \<noteq> None
 \<and> IsMember (is_member_runs calm) (database alice_world) ''conv-1'' ''alice'' = Inr True
 \<and> StatusCode (fst (List_videos calm_list alice_world (listing_of ''conv-1''))) = StatusOK"
proof -
  have a1: "requireSession alice_world (cookie anonymous_upload)
              = Inl (Error ''unauthorized'' StatusUnauthorized)"
    and a2: "requireSession alice_world (list_cookie anonymous_listing)
              = Inl (Error ''unauthorized'' StatusUnauthorized)"
    by code_simp+
  have b1: "requireSession alice_world (cookie (upload_of ''conv-2'' ''test.mp4'')) = Inr ''alice''"
    and b2: "form (upload_of ''conv-2'' ''test.mp4'')
               = Some \<lparr>form_conversation_id = ''conv-2'',
                       form_file = Some (''test.mp4'', ''fake video content'')\<rparr>"
    and b3: "IsMember (is_member_runs calm) (database alice_world) ''conv-2'' ''alice'' = Inr False"
    and b4: "requireSession alice_world (list_cookie (listing_of ''conv-2'')) = Inr ''alice''"
    and b5: "query_conversation_id (listing_of ''conv-2'') = ''conv-2''"
    and b6: "IsMember (list_is_member_runs calm_list) (database alice_world) ''conv-2'' ''alice''
               = Inr False"
    by code_simp+
  have c1: "snd (snd (Upload ''videos'' calm alice_world (upload_of ''conv-1'' ''test.mp4''))) \<noteq> None"
    and c2: "IsMember (is_member_runs calm) (database alice_world) ''conv-1'' ''alice'' = Inr True"
    and c3: "StatusCode (fst (List_videos calm_list alice_world (listing_of ''conv-1''))) = StatusOK"
    by code_simp+
  note anon = checks_precede_mutation
    [of alice_world anonymous_upload "Error ''unauthorized'' StatusUnauthorized"
        "''videos''" calm anonymous_listing calm_list]
  note outsider = checks_precede_mutation
    [of alice_world "upload_of ''conv-2'' ''test.mp4''" _ "''videos''" calm
        "listing_of ''conv-2''" calm_list "''alice''"
        "\<lparr>form_conversation_id = ''conv-2'',
          form_file = Some (''test.mp4'', ''fake video content'')\<rparr>"]
  from anon outsider show ?thesis
    using a1 a2 b1 b2 b3 b4 b5 b6 c1 c2 c3 by simp
qed

text \<open>
  C4 on a failing write: alice, a member, uploads \<open>test.mp4\<close>; \<^verbatim>\<open>os.Create\<close>
  succeeds and \<^verbatim>\<open>io.Copy\<close> fails after four bytes. Upload answers 500 and creates no
  record, but it returns without removing the file: the four bytes stay on disk under
  the original path.
\<close>

theorem Upload_failed_write_leaves_partial_file:
  "StatusCode (fst (Upload ''videos'' (calm\<lparr>copy_fails_at := Some 4\<rparr>) alice_world
                     (upload_of ''conv-1'' ''test.mp4''))) = StatusInternalServerError
   \<and> files (fst (snd (Upload ''videos'' (calm\<lparr>copy_fails_at := Some 4\<rparr>) alice_world
                     (upload_of ''conv-1'' ''test.mp4''))))
        (''videos/conv-1/original_'' @ sample_id @ ''.mp4'') = Some ''fake''
   \<and> videos (database (fst (snd (Upload ''videos'' (calm\<lparr>copy_fails_at := Some 4\<rparr>) alice_world
                     (upload_of ''conv-1'' ''test.mp4''))))) = []"
  by code_simp

text \<open>
  The sibling path does clean up: when the write succeeds and the insert fails, the
  handler removes the file it has just written.
\<close>

lemma Upload_failed_insert_removes_file:
  "StatusCode (fst (Upload ''videos'' (calm\<lparr>create_video_runs := False\<rparr>) alice_world
                     (upload_of ''conv-1'' ''test.mp4''))) = StatusInternalServerError
   \<and> files (fst (snd (Upload ''videos'' (calm\<lparr>create_video_runs := False\<rparr>) alice_world
                     (upload_of ''conv-1'' ''test.mp4''))))
        (''videos/conv-1/original_'' @ sample_id @ ''.mp4'') = None"
  by code_simp

section \<open>Properties of the transcode worker\<close>

declare transcode_loop.simps [simp del]

lemma run_ffmpeg_database [simp]: "database (fst (run_ffmpeg res w out)) = database w"
  by (simp add: run_ffmpeg_def split: FfmpegResult.splits option.splits)

lemma Remove_database [simp]: "database (fst (Remove ok w p)) = database w"
  by (simp add: Remove_def)

lemma run_ffmpeg_other: "p \<noteq> out \<Longrightarrow> files (fst (run_ffmpeg res w out)) p = files w p"
  by (simp add: run_ffmpeg_def split: FfmpegResult.splits option.splits)

lemma write_status_files [simp]: "files (fst (write_status runs w i s)) = files w"
  by (simp add: write_status_def UpdateVideoStatus_def)

lemma run_ffmpeg_failed:
  "\<not> succeeded res \<Longrightarrow> snd (run_ffmpeg res w out) = False"
  by (cases res) (auto simp: run_ffmpeg_def split: option.splits)

lemma run_ffmpeg_succeeded:
  "run_ffmpeg (Exit0 data) w out = (w\<lparr>files := (files w)(out \<mapsto> data)\<rparr>, True)"
  by (simp add: run_ffmpeg_def)

lemma loop_failed:
  "attempt \<le> maxRetries \<Longrightarrow> run_ffmpeg (ffmpeg env attempt) w out = (w1, False) \<Longrightarrow>
   transcode_loop env vid inp out attempt (w, tr) =
     transcode_loop env vid inp out (Suc attempt)
       (w1, tr @ [Convert attempt] @ (if attempt < maxRetries then [Sleep retryDelay] else []))"
  by (subst transcode_loop.simps) simp

lemma loop_converted:
  "attempt \<le> maxRetries \<Longrightarrow> run_ffmpeg (ffmpeg env attempt) w out = (w1, True) \<Longrightarrow>
   transcode_loop env vid inp out attempt (w, tr) =
     (fst (write_status (update_runs env) (fst (Remove (remove_ok env) w1 inp)) vid ''ready''),
      tr @ [Convert attempt, RemoveFile inp (snd (Remove (remove_ok env) w1 inp)),
            SetStatus vid ''ready''
              (snd (write_status (update_runs env) (fst (Remove (remove_ok env) w1 inp)) vid ''ready''))])"
  by (subst transcode_loop.simps) (simp split: prod.splits)

lemma loop_exhausted:
  "\<not> attempt \<le> maxRetries \<Longrightarrow>
   transcode_loop env vid inp out attempt (w, tr) =
     (fst (write_status (update_runs env) w vid ''error''),
      tr @ [SetStatus vid ''error'' (snd (write_status (update_runs env) w vid ''error''))])"
  by (subst transcode_loop.simps) (simp split: prod.splits)



lemma allowed_length: "allowedExtensions ext \<Longrightarrow> length ext = 4"
  by (auto simp: allowedExtensions_def)

lemma Upload_job_lengths:
  "Upload videosDir env w r = (resp, w', Some j) \<Longrightarrow>
   length (job_input j) = length (job_output j) + 9"
  apply (simp add: Upload_def Let_def split: sum.splits option.splits if_splits prod.splits)
  apply (auto simp: Join_def dest: allowed_length)
  done

lemma Upload_job_paths:
  "Upload videosDir env w r = (resp, w', Some j) \<Longrightarrow> job_input j \<noteq> job_output j"
  using Upload_job_lengths by fastforce

lemma find_video_set_status:
  "find (\<lambda>v. ID v = i) (map (set_status i s) vs)
     = map_option (\<lambda>v. v\<lparr>Status := s\<rparr>) (find (\<lambda>v. ID v = i) vs)"
  by (induction vs) (auto simp: set_status_def)

lemma find_video_write_status:
  "find_video (database (fst (write_status runs w i s))) i
     = (if runs then map_option (\<lambda>v. v\<lparr>Status := s\<rparr>) (find_video (database w) i)
        else find_video (database w) i)"
  by (simp add: write_status_def UpdateVideoStatus_def find_video_def find_video_set_status)

lemma write_status_snd [simp]: "snd (write_status runs w i s) = runs"
  by (simp add: write_status_def UpdateVideoStatus_def)


lemma loop_until_converted:
  assumes "ffmpeg env k = Exit0 data" and "k \<le> maxRetries" and "inp \<noteq> out"
  shows "attempt \<le> k \<Longrightarrow> (\<forall>n. attempt \<le> n \<and> n < k \<longrightarrow> \<not> succeeded (ffmpeg env n)) \<Longrightarrow>
    (let removed = (remove_ok env \<and> files w inp \<noteq> None);
         res = transcode_loop env vid inp out attempt (w, tr)
     in snd res = tr @ concat (map (\<lambda>n. [Convert n, Sleep retryDelay]) [attempt..<k])
                     @ [Convert k, RemoveFile inp removed, SetStatus vid ''ready'' (update_runs env)]
      \<and> files (fst res) out = Some data
      \<and> files (fst res) inp = (if removed then None else files w inp)
      \<and> find_video (database (fst res)) vid
          = (if update_runs env
             then map_option (\<lambda>v. v\<lparr>Status := ''ready''\<rparr>) (find_video (database w) vid)
             else find_video (database w) vid))"
proof (induction "k - attempt" arbitrary: attempt w tr)
  case 0
  then have [simp]: "attempt = k" by simp
  have rf: "run_ffmpeg (ffmpeg env k) w out = (w\<lparr>files := (files w)(out \<mapsto> data)\<rparr>, True)"
    using assms(1) by (simp add: run_ffmpeg_def)
  show ?case
    using assms(3)
    by (simp add: loop_converted [OF assms(2) rf] Let_def find_video_write_status Remove_def)
next
  case (Suc d)
  then have lt: "attempt < k" and le: "attempt \<le> maxRetries" "attempt < maxRetries"
    using assms(2) by simp_all
  from Suc.prems(2) lt have "\<not> succeeded (ffmpeg env attempt)" by simp
  then obtain w1 where w1: "run_ffmpeg (ffmpeg env attempt) w out = (w1, False)"
    using run_ffmpeg_failed by (metis prod.collapse)
  have d1: "database w1 = database w" "files w1 inp = files w inp"
    by (metis fst_conv run_ffmpeg_database w1) (metis assms(3) fst_conv run_ffmpeg_other w1)
  have ih: "d = k - Suc attempt" "Suc attempt \<le> k"
    "\<forall>n. Suc attempt \<le> n \<and> n < k \<longrightarrow> \<not> succeeded (ffmpeg env n)"
    using Suc.hyps(2) lt Suc.prems(2) by simp_all
  show ?case
    using Suc.hyps(1) [OF ih, of w1 "tr @ [Convert attempt, Sleep retryDelay]"] lt le d1
    by (simp add: loop_failed [OF le(1) w1] Let_def upt_conv_Cons)
qed



lemma loop_all_failed:
  assumes "\<forall>n. 1 \<le> n \<and> n \<le> maxRetries \<longrightarrow> \<not> succeeded (ffmpeg env n)"
    and "inputPath \<noteq> outputPath"
  shows "snd (transcode env w videoID inputPath outputPath)
           = [Convert 1, Sleep retryDelay, Convert 2, Sleep retryDelay, Convert 3,
              SetStatus videoID ''error'' (update_runs env)]
       \<and> files (fst (transcode env w videoID inputPath outputPath)) inputPath = files w inputPath
       \<and> find_video (database (fst (transcode env w videoID inputPath outputPath))) videoID
           = (if update_runs env
              then map_option (\<lambda>v. v\<lparr>Status := ''error''\<rparr>) (find_video (database w) videoID)
              else find_video (database w) videoID)"
proof -
  have f: "\<not> succeeded (ffmpeg env (Suc 0))" "\<not> succeeded (ffmpeg env (Suc (Suc 0)))"
    "\<not> succeeded (ffmpeg env (Suc (Suc (Suc 0))))"
    using assms(1) by (simp_all add: maxRetries_def)
  obtain w1 where w1: "run_ffmpeg (ffmpeg env (Suc 0)) w outputPath = (w1, False)"
    using run_ffmpeg_failed [OF f(1)] by (metis prod.collapse)
  obtain w2 where w2: "run_ffmpeg (ffmpeg env (Suc (Suc 0))) w1 outputPath = (w2, False)"
    using run_ffmpeg_failed [OF f(2)] by (metis prod.collapse)
  obtain w3 where w3: "run_ffmpeg (ffmpeg env (Suc (Suc (Suc 0)))) w2 outputPath = (w3, False)"
    using run_ffmpeg_failed [OF f(3)] by (metis prod.collapse)
  have d1: "database w1 = database w" "files w1 inputPath = files w inputPath"
    by (metis fst_conv run_ffmpeg_database w1) (metis assms(2) fst_conv run_ffmpeg_other w1)
  have d2: "database w2 = database w1" "files w2 inputPath = files w1 inputPath"
    by (metis fst_conv run_ffmpeg_database w2) (metis assms(2) fst_conv run_ffmpeg_other w2)
  have d3: "database w3 = database w2" "files w3 inputPath = files w2 inputPath"
    by (metis fst_conv run_ffmpeg_database w3) (metis assms(2) fst_conv run_ffmpeg_other w3)
  have fw: "files w3 inputPath = files w inputPath" and dw: "database w3 = database w"
    using d1 d2 d3 by simp_all
  have "transcode env w videoID inputPath outputPath =
      transcode_loop env videoID inputPath outputPath (Suc 0) (w, [])"
    by (simp add: transcode_def)
  also have "\<dots> = transcode_loop env videoID inputPath outputPath (Suc (Suc 0))
                    (w1, [Convert 1, Sleep retryDelay])"
    by (simp add: loop_failed [OF _ w1] maxRetries_def)
  also have "\<dots> = transcode_loop env videoID inputPath outputPath (Suc (Suc (Suc 0)))
                    (w2, [Convert 1, Sleep retryDelay, Convert 2, Sleep retryDelay])"
    by (simp add: loop_failed [OF _ w2] maxRetries_def numeral_2_eq_2)
  also have "\<dots> = transcode_loop env videoID inputPath outputPath (Suc (Suc (Suc (Suc 0))))
                    (w3, [Convert 1, Sleep retryDelay, Convert 2, Sleep retryDelay, Convert 3])"
    by (simp add: loop_failed [OF _ w3] maxRetries_def numeral_2_eq_2 numeral_3_eq_3)
  also have "\<dots> = (fst (write_status (update_runs env) w3 videoID ''error''),
       [Convert 1, Sleep retryDelay, Convert 2, Sleep retryDelay, Convert 3,
        SetStatus videoID ''error'' (update_runs env)])"
    by (simp add: loop_exhausted maxRetries_def numeral_2_eq_2 numeral_3_eq_3)
  finally show ?thesis
    using fw dw find_video_write_status [of "update_runs env" w3 videoID "''error''"]
    by (simp add: find_video_def)
qed

text \<open>
  C3: a worker started by Upload, run in any state, whose ffmpeg calls all fail, makes
  exactly three calls (the retry bound), sleeps the constant \<open>retryDelay\<close> after the
  first and after the second and not after the third, and then writes the status
  \<open>error\<close> once; it removes nothing, and the original file is afterwards what it was
  before. The row of the video has the status \<open>error\<close> once the database has run that
  write (a write the driver refuses is logged and leaves the row as it was).
\<close>

theorem transcode_exhausted:
  assumes "\<forall>n. 1 \<le> n \<and> n \<le> maxRetries \<longrightarrow> \<not> succeeded (ffmpeg env n)"
    and "Upload videosDir uenv w0 r = (resp, w1, Some j)"
  shows "(let res = transcode env w (job_video_id j) (job_input j) (job_output j)
          in snd res = [Convert 1, Sleep retryDelay, Convert 2, Sleep retryDelay, Convert 3,
                        SetStatus (job_video_id j) ''error'' (update_runs env)]
           \<and> attempts (snd res) = maxRetries
           \<and> files (fst res) (job_input j) = files w (job_input j)
           \<and> find_video (database (fst res)) (job_video_id j)
               = (if update_runs env
                  then map_option (\<lambda>v. v\<lparr>Status := ''error''\<rparr>)
                         (find_video (database w) (job_video_id j))
                  else find_video (database w) (job_video_id j)))"
  using loop_all_failed [OF assms(1) Upload_job_paths [OF assms(2)], of w "job_video_id j"]
  by (simp add: Let_def attempts_def maxRetries_def)

lemma sample_upload:
  "Upload ''videos'' calm alice_world (upload_of ''conv-1'' ''test.mp4'')
     = (Response StatusAccepted (UploadJSON sample_id ''pending''), uploaded_world, Some sample_job)"
proof -
  have "fst (Upload ''videos'' calm alice_world (upload_of ''conv-1'' ''test.mp4''))
          = Response StatusAccepted (UploadJSON sample_id ''pending'')"
    and "snd (snd (Upload ''videos'' calm alice_world (upload_of ''conv-1'' ''test.mp4'')))
          = Some sample_job"
    by code_simp+
  then show ?thesis
    by (simp add: uploaded_world_def prod_eq_iff)
qed

lemma uploaded_world_facts:
  "files uploaded_world (job_input sample_job) = Some ''fake video content''"
  "files uploaded_world (job_output sample_job) = None"
  "map_option Status (find_video (database uploaded_world) (job_video_id sample_job)) = Some ''pending''"
  by code_simp+

theorem transcode_exhausted_witness:
  "\<not> succeeded (ffmpeg never_converts 1) \<and> \<not> succeeded (ffmpeg never_converts 2)
   \<and> \<not> succeeded (ffmpeg never_converts 3)
   \<and> Upload ''videos'' calm alice_world (upload_of ''conv-1'' ''test.mp4'')
       = (Response StatusAccepted (UploadJSON sample_id ''pending''), uploaded_world, Some sample_job)
   \<and> attempts (snd (transcode never_converts uploaded_world (job_video_id sample_job)
                       (job_input sample_job) (job_output sample_job))) = 3
   \<and> files (fst (transcode never_converts uploaded_world (job_video_id sample_job)
                    (job_input sample_job) (job_output sample_job))) (job_input sample_job)
       = Some ''fake video content''
   \<and> map_option Status
        (find_video (database (fst (transcode never_converts uploaded_world
           (job_video_id sample_job) (job_input sample_job) (job_output sample_job))))
           (job_video_id sample_job)) = Some ''error''"
proof -
  have h: "\<forall>n. 1 \<le> n \<and> n \<le> maxRetries \<longrightarrow> \<not> succeeded (ffmpeg never_converts n)"
    by (simp add: never_converts_def)
  have u: "update_runs never_converts" "\<not> succeeded (ffmpeg never_converts 1)"
    "\<not> succeeded (ffmpeg never_converts 2)" "\<not> succeeded (ffmpeg never_converts 3)"
    by (simp_all add: never_converts_def)
  from transcode_exhausted [OF h sample_upload, of uploaded_world] show ?thesis
    using u sample_upload uploaded_world_facts
    by (auto simp: Let_def maxRetries_def option.map_comp comp_def)
qed


text \<open>
  C2, as the code has it: a worker started by Upload, run in any state, whose attempt
  \<open>k\<close> is the first to succeed, makes exactly \<open>k\<close> ffmpeg calls with a \<open>retryDelay\<close>
  sleep after each failed one, then removes the original, then writes the status
  \<open>ready\<close>, whether or not the removal succeeded. Afterwards the canonical file holds
  the converted stream; the original is gone if its removal succeeded and is still on
  disk if it failed; and the row has the status \<open>ready\<close> once the database has run the
  write.
\<close>

theorem transcode_converted:
  assumes "1 \<le> k" and "k \<le> maxRetries" and "ffmpeg env k = Exit0 out"
    and "\<forall>n. 1 \<le> n \<and> n < k \<longrightarrow> \<not> succeeded (ffmpeg env n)"
    and "Upload videosDir uenv w0 r = (resp, w1, Some j)"
  shows "(let removed = (remove_ok env \<and> files w (job_input j) \<noteq> None);
              res = transcode env w (job_video_id j) (job_input j) (job_output j)
          in snd res = concat (map (\<lambda>n. [Convert n, Sleep retryDelay]) [1..<k])
                         @ [Convert k, RemoveFile (job_input j) removed,
                            SetStatus (job_video_id j) ''ready'' (update_runs env)]
           \<and> attempts (snd res) = k
           \<and> files (fst res) (job_output j) = Some out
           \<and> files (fst res) (job_input j) = (if removed then None else files w (job_input j))
           \<and> find_video (database (fst res)) (job_video_id j)
               = (if update_runs env
                  then map_option (\<lambda>v. v\<lparr>Status := ''ready''\<rparr>)
                         (find_video (database w) (job_video_id j))
                  else find_video (database w) (job_video_id j)))"
proof -
  have n: "attempts (concat (map (\<lambda>n. [Convert n, Sleep retryDelay]) [a..<b])) = b - a" for a b
    by (induction b) (auto simp: attempts_def)
  from assms(4) have f: "\<forall>n. Suc 0 \<le> n \<and> n < k \<longrightarrow> \<not> succeeded (ffmpeg env n)" by simp
  from assms(1) have k: "Suc 0 \<le> k" by simp
  show ?thesis
    using loop_until_converted [OF assms(3) assms(2) Upload_job_paths [OF assms(5)] k f,
        of w "job_video_id j" "[]"] n [of 1 k] assms(1)
    by (simp add: Let_def transcode_def attempts_def)
qed

theorem transcode_converted_witness:
  "(1::nat) \<le> 2 \<and> 2 \<le> maxRetries \<and> ffmpeg converts_second 2 = Exit0 ''converted''
   \<and> \<not> succeeded (ffmpeg converts_second 1)
   \<and> Upload ''videos'' calm alice_world (upload_of ''conv-1'' ''test.mp4'')
       = (Response StatusAccepted (UploadJSON sample_id ''pending''), uploaded_world, Some sample_job)
   \<and> snd (transcode converts_second uploaded_world (job_video_id sample_job)
             (job_input sample_job) (job_output sample_job))
       = [Convert 1, Sleep retryDelay, Convert 2, RemoveFile (job_input sample_job) True,
          SetStatus (job_video_id sample_job) ''ready'' True]
   \<and> files (fst (transcode converts_second uploaded_world (job_video_id sample_job)
                    (job_input sample_job) (job_output sample_job))) (job_output sample_job)
       = Some ''converted''
   \<and> files (fst (transcode converts_second uploaded_world (job_video_id sample_job)
                    (job_input sample_job) (job_output sample_job))) (job_input sample_job)
       = None
   \<and> map_option Status
        (find_video (database (fst (transcode converts_second uploaded_world
           (job_video_id sample_job) (job_input sample_job) (job_output sample_job))))
           (job_video_id sample_job)) = Some ''ready''"
proof -
  have h: "(1::nat) \<le> 2" "2 \<le> maxRetries" "ffmpeg converts_second 2 = Exit0 ''converted''"
    "\<forall>n. 1 \<le> n \<and> n < 2 \<longrightarrow> \<not> succeeded (ffmpeg converts_second n)"
    by (simp_all add: converts_second_def maxRetries_def)
  have u: "update_runs converts_second" "remove_ok converts_second"
    "\<not> succeeded (ffmpeg converts_second 1)"
    by (simp_all add: converts_second_def)
  have l: "[1..<2] = [1::nat]" by (simp add: upt_rec)
  from transcode_converted [OF h sample_upload, of uploaded_world] show ?thesis
    using h(1-3) u l sample_upload uploaded_world_facts
    by (auto simp: Let_def option.map_comp comp_def)
qed

text \<open>
  C2, as the claim states it, fails: ffmpeg converts at the first attempt and
  \<^verbatim>\<open>os.Remove\<close> fails; the worker logs that, sets the status to \<open>ready\<close>, and the
  original file is still on disk.
\<close>

theorem transcode_converted_counterexample:
  "succeeded (ffmpeg cannot_remove 1)
   \<and> snd (transcode cannot_remove uploaded_world (job_video_id sample_job)
             (job_input sample_job) (job_output sample_job))
       = [Convert 1, RemoveFile (job_input sample_job) False,
          SetStatus (job_video_id sample_job) ''ready'' True]
   \<and> files (fst (transcode cannot_remove uploaded_world (job_video_id sample_job)
                    (job_input sample_job) (job_output sample_job))) (job_input sample_job)
       = Some ''fake video content''
   \<and> map_option Status
        (find_video (database (fst (transcode cannot_remove uploaded_world
           (job_video_id sample_job) (job_input sample_job) (job_output sample_job))))
           (job_video_id sample_job)) = Some ''ready''"
proof -
  have t: "transcode cannot_remove uploaded_world (job_video_id sample_job)
             (job_input sample_job) (job_output sample_job)
           = (fst (write_status True (uploaded_world\<lparr>files := (files uploaded_world)(job_output sample_job \<mapsto> ''converted'')\<rparr>) (job_video_id sample_job) ''ready''),
              [Convert 1, RemoveFile (job_input sample_job) False,
               SetStatus (job_video_id sample_job) ''ready'' True])"
    unfolding transcode_def
    by (subst loop_converted [where ?w1.0 = "uploaded_world\<lparr>files := (files uploaded_world)(job_output sample_job \<mapsto> ''converted'')\<rparr>"])
       (simp_all add: maxRetries_def cannot_remove_def run_ffmpeg_def Remove_def)
  have ne: "job_input sample_job \<noteq> job_output sample_job" by code_simp
  show ?thesis
    unfolding t using uploaded_world_facts ne
    by (auto simp: find_video_write_status option.map_comp comp_def cannot_remove_def)
qed

section \<open>Properties of the running server\<close>

lemma statuses_append_new:
  "ID v \<notin> set (map ID vs) \<Longrightarrow>
   statuses (vs @ [v]) i = (if i = ID v then Some (Status v) else statuses vs i)"
  by (induction vs) (auto simp: statuses_def)

lemma statuses_set_status:
  "statuses (map (set_status j s) vs) i
     = (if i = j then map_option (\<lambda>x. s) (statuses vs i) else statuses vs i)"
  by (induction vs) (auto simp: statuses_def set_status_def)

lemma statuses_None: "statuses vs i = None \<longleftrightarrow> i \<notin> set (map ID vs)"
  by (auto simp: statuses_def map_of_eq_None_iff image_image)

lemma Upload_videos:
  "Upload videosDir env w r = (resp, w', job) \<Longrightarrow>
   (job = None \<and> videos (database w') = videos (database w))
   \<or> (\<exists>v j. job = Some j \<and> job_video_id j = ID v \<and> ID v \<notin> set (map ID (videos (database w)))
          \<and> Status v = ''pending'' \<and> videos (database w') = videos (database w) @ [v])"
  apply (simp add: Upload_def Let_def MkdirAll_def saveFile_def Remove_def
      split: sum.splits option.splits if_splits prod.splits)
  apply (auto simp: CreateVideo_def has_video_def split: if_splits)
  done

lemma loop_videos:
  "videos (database (fst (transcode_loop env vid inp out n (w, tr))))
     \<in> {videos (database w), map (set_status vid ''ready'') (videos (database w)),
         map (set_status vid ''error'') (videos (database w))}"
proof (induction "Suc maxRetries - n" arbitrary: n w tr)
  case 0
  then have "\<not> n \<le> maxRetries" by simp
  then show ?case
    by (simp add: loop_exhausted write_status_def UpdateVideoStatus_def)
next
  case (Suc d)
  then have le: "n \<le> maxRetries" by simp
  obtain w1 c where rf: "run_ffmpeg (ffmpeg env n) w out = (w1, c)"
    by (metis prod.collapse)
  have d1: "database w1 = database w"
    by (metis fst_conv run_ffmpeg_database rf)
  show ?case
  proof (cases c)
    case True
    with rf le d1 show ?thesis
      by (simp add: loop_converted [OF le] write_status_def UpdateVideoStatus_def)
  next
    case False
    have "d = Suc maxRetries - Suc n" using Suc.hyps(2) by simp
    from Suc.hyps(1) [OF this, of w1] False rf le d1 show ?thesis
      by (simp add: loop_failed [OF le])
  qed
qed

lemma List_videos_world: "snd (List_videos env w r) = w"
  by (auto simp: List_videos_def Let_def split: sum.splits option.splits if_splits)

lemma step_effect:
  "(table (step d s a) = table s \<and> workers (step d s a) = workers s)
 \<or> (\<exists>v j. ID v \<notin> set (map ID (table s)) \<and> Status v = ''pending''
        \<and> table (step d s a) = table s @ [v]
        \<and> workers (step d s a) = workers s @ [j] \<and> job_video_id j = ID v)
 \<or> (\<exists>k env st. a = DoWorker k env \<and> k < length (workers s)
        \<and> workers (step d s a) = take k (workers s) @ drop (Suc k) (workers s)
        \<and> (st = ''ready'' \<or> st = ''error'')
        \<and> (table (step d s a) = table s
            \<or> table (step d s a) = map (set_status (job_video_id (workers s ! k)) st) (table s)))"
proof (cases a)
  case (DoUpload env r)
  obtain resp w' job where u: "Upload d env (world s) r = (resp, w', job)"
    by (metis prod.collapse)
  from Upload_videos [OF u] show ?thesis
    using DoUpload u by (auto simp: step_def)
next
  case (DoList env r)
  then show ?thesis by (simp add: step_def List_videos_world)
next
  case (DoAddMember runs now c u)
  then show ?thesis
    by (auto simp: step_def AddMember_def split: sum.splits if_splits)
next
  case (DoCreateSession rnd u)
  then show ?thesis by (simp add: step_def)
next
  case (DoWorker k env)
  show ?thesis
  proof (cases "k < length (workers s)")
    case True
    from loop_videos [of env "job_video_id (workers s ! k)" "job_input (workers s ! k)"
        "job_output (workers s ! k)" 1 "world s" "[]"]
    show ?thesis
      using DoWorker True by (auto simp: step_def transcode_def Let_def)
  next
    case False
    then show ?thesis using DoWorker by (simp add: step_def)
  qed
qed


lemma take_drop_subset: "set (take k xs @ drop (Suc k) xs) \<subseteq> set xs"
  by (auto dest: in_set_takeD in_set_dropD)

lemma distinct_without_nth:
  assumes "distinct xs" and "k < length xs"
  shows "distinct (take k xs @ drop (Suc k) xs) \<and> xs ! k \<notin> set (take k xs @ drop (Suc k) xs)"
proof -
  have e: "xs = take k xs @ xs ! k # drop (Suc k) xs"
    by (rule id_take_nth_drop) fact
  from assms(1) have "distinct (take k xs @ xs ! k # drop (Suc k) xs)"
    by (subst e [symmetric])
  then show ?thesis by auto
qed


lemma worker_ids_nth: "k < length (workers s) \<Longrightarrow> job_video_id (workers s ! k) = worker_ids s ! k"
  by (simp add: worker_ids_def)

lemma step_cases [case_names unchanged created finished]:
  obtains
    (unchanged) "table (step d s a) = table s" "workers (step d s a) = workers s"
  | (created) v j where "ID v \<notin> set (map ID (table s))" "Status v = ''pending''"
      "table (step d s a) = table s @ [v]" "workers (step d s a) = workers s @ [j]"
      "job_video_id j = ID v"
  | (finished) k env st where "a = DoWorker k env" "k < length (workers s)"
      "workers (step d s a) = take k (workers s) @ drop (Suc k) (workers s)"
      "st = ''ready'' \<or> st = ''error''"
      "table (step d s a) = table s
       \<or> table (step d s a) = map (set_status (job_video_id (workers s ! k)) st) (table s)"
  using step_effect [of d s a] by blast

lemma statuses_Some_in: "statuses vs i = Some x \<Longrightarrow> i \<in> set (map ID vs)"
  using statuses_None [of vs i] by auto

lemma consistent_step:
  assumes "consistent s"
  shows "consistent (step d s a)"
proof -
  from assms have dist: "distinct (worker_ids s)"
    and pend: "\<forall>i \<in> set (worker_ids s). statuses (table s) i = Some ''pending''"
    by (simp_all add: consistent_def list_all_iff status_of_def)
  show ?thesis
  proof (cases rule: step_cases [of d s a])
    case unchanged
    with dist pend show ?thesis
      by (simp add: consistent_def list_all_iff status_of_def worker_ids_def)
  next
    case (created v j)
    have "ID v \<notin> set (worker_ids s)"
      using pend created(1) statuses_Some_in by blast
    with dist pend created show ?thesis
      by (simp add: consistent_def list_all_iff status_of_def worker_ids_def statuses_append_new)
  next
    case (finished k env st)
    have k: "k < length (worker_ids s)" using finished(2) by (simp add: worker_ids_def)
    note dw = distinct_without_nth [OF dist k]
    have ids: "worker_ids (step d s a) = take k (worker_ids s) @ drop (Suc k) (worker_ids s)"
      using finished(3) by (simp add: worker_ids_def take_map drop_map)
    have sub: "set (worker_ids (step d s a)) \<subseteq> set (worker_ids s)"
      unfolding ids by (rule take_drop_subset)
    have "statuses (table (step d s a)) i = Some ''pending''"
      if "i \<in> set (worker_ids (step d s a))" for i
    proof -
      from that sub pend have p: "statuses (table s) i = Some ''pending''" by auto
      from that dw have "i \<noteq> worker_ids s ! k" unfolding ids by auto
      then have "i \<noteq> job_video_id (workers s ! k)"
        using finished(2) by (simp add: worker_ids_nth)
      with p finished(5) show ?thesis by (auto simp: statuses_set_status)
    qed
    with dw show ?thesis
      by (simp add: consistent_def list_all_iff status_of_def ids)
  qed
qed

lemma reachable_consistent: "reachable d s \<Longrightarrow> consistent s"
proof (induction rule: reachable.induct)
  case (reach_start s)
  then show ?case by (simp add: initial_def consistent_def worker_ids_def)
next
  case (reach_step s a)
  then show ?case by (simp add: consistent_step)
qed

lemma step_created:
  assumes "status_of s i = None"
  shows "status_of (step d s a) i \<in> {None, Some ''pending''}"
proof (cases rule: step_cases [of d s a])
  case unchanged
  with assms show ?thesis by (simp add: status_of_def)
next
  case (created v j)
  with assms show ?thesis by (simp add: status_of_def statuses_append_new)
next
  case (finished k env st)
  with assms show ?thesis by (auto simp: status_of_def statuses_set_status)
qed

lemma step_pending:
  assumes "status_of s i = Some ''pending''"
  shows "status_of (step d s a) i \<in> {Some ''pending'', Some ''ready'', Some ''error''}"
proof (cases rule: step_cases [of d s a])
  case unchanged
  with assms show ?thesis by (simp add: status_of_def)
next
  case (created v j)
  with assms show ?thesis by (simp add: status_of_def statuses_append_new)
next
  case (finished k env st)
  with assms show ?thesis
    by (cases "i = job_video_id (workers s ! k)") (auto simp: status_of_def statuses_set_status)
qed

lemma step_by_worker:
  assumes "consistent s" and "status_of s i = Some ''pending''"
    and "status_of (step d s a) i \<noteq> Some ''pending''"
  shows "(\<exists>k env. a = DoWorker k env \<and> k < length (workers s)
                 \<and> job_video_id (workers s ! k) = i)
         \<and> i \<notin> set (worker_ids (step d s a))"
proof (cases rule: step_cases [of d s a])
  case unchanged
  with assms show ?thesis by (simp add: status_of_def)
next
  case (created v j)
  with assms show ?thesis by (simp add: status_of_def statuses_append_new split: if_splits)
next
  case (finished k env st)
  from assms(1) have dist: "distinct (worker_ids s)" by (simp add: consistent_def)
  have k: "k < length (worker_ids s)" using finished(2) by (simp add: worker_ids_def)
  note dw = distinct_without_nth [OF dist k]
  have ids: "worker_ids (step d s a) = take k (worker_ids s) @ drop (Suc k) (worker_ids s)"
    using finished(3) by (simp add: worker_ids_def take_map drop_map)
  from assms(2,3) finished(5) have i: "i = job_video_id (workers s ! k)"
    by (auto simp: status_of_def statuses_set_status split: if_splits)
  then have "i = worker_ids s ! k" using finished(2) by (simp add: worker_ids_nth)
  with dw have "i \<notin> set (worker_ids (step d s a))" unfolding ids by simp
  with i finished(1,2) show ?thesis by simp
qed

lemma step_settled:
  assumes "consistent s" and "status_of s i = Some st" and "i \<notin> set (worker_ids s)"
  shows "status_of (step d s a) i = Some st \<and> i \<notin> set (worker_ids (step d s a))"
proof (cases rule: step_cases [of d s a])
  case unchanged
  with assms show ?thesis by (simp add: status_of_def worker_ids_def)
next
  case (created v j)
  from assms(2) have "i \<in> set (map ID (table s))"
    unfolding status_of_def by (rule statuses_Some_in)
  with created(1) have "i \<noteq> ID v" by blast
  with assms created show ?thesis
    by (simp add: status_of_def worker_ids_def statuses_append_new)
next
  case (finished k env st')
  have "worker_ids s ! k \<in> set (worker_ids s)"
    using finished(2) by (simp add: worker_ids_def)
  with assms(3) have "i \<noteq> job_video_id (workers s ! k)"
    using finished(2) by (auto simp: worker_ids_nth)
  moreover have "set (worker_ids (step d s a)) \<subseteq> set (worker_ids s)"
    using finished(3) take_drop_subset [of k "workers s"]
    by (auto simp: worker_ids_def)
  ultimately show ?thesis
    using assms finished(5) by (auto simp: status_of_def statuses_set_status)
qed

lemma run_settled:
  "consistent s \<Longrightarrow> status_of s i = Some st \<Longrightarrow> i \<notin> set (worker_ids s) \<Longrightarrow>
   status_of (foldl (step d) s as) i = Some st"
proof (induction as arbitrary: s)
  case Nil
  then show ?case by simp
next
  case (Cons a as)
  from step_settled [OF Cons.prems, of d a] consistent_step [OF Cons.prems(1), of d a]
  show ?case by (simp add: Cons.IH)
qed

lemma terminal_has_no_worker:
  "consistent s \<Longrightarrow> status_of s i = Some st \<Longrightarrow> st \<noteq> ''pending'' \<Longrightarrow> i \<notin> set (worker_ids s)"
  by (auto simp: consistent_def list_all_iff)

text \<open>
  C8: in every state the server reaches, and for every action and every id: a row
  that is not there is, after the action, still not there or there with the status
  \<open>pending\<close>; a row with the status \<open>pending\<close> is afterwards \<open>pending\<close>, \<open>ready\<close> or
  \<open>error\<close>; if it has left \<open>pending\<close>, the action was the run of the worker started
  for this video, and no worker for the video is left; and a row whose status is not
  \<open>pending\<close>, or for which no worker is left, keeps its status through every sequence
  of actions. So a status is written at most once, by the video's one worker, and only
  from \<open>pending\<close> to \<open>ready\<close> or \<open>error\<close>.
\<close>

theorem video_status_lifecycle:
  assumes "reachable videosDir s"
  shows "(status_of s i = None \<longrightarrow>
            status_of (step videosDir s a) i \<in> {None, Some ''pending''})
       \<and> (status_of s i = Some ''pending'' \<longrightarrow>
            status_of (step videosDir s a) i \<in> {Some ''pending'', Some ''ready'', Some ''error''})
       \<and> (status_of s i = Some ''pending'' \<and> status_of (step videosDir s a) i \<noteq> Some ''pending'' \<longrightarrow>
            (\<exists>k env. a = DoWorker k env \<and> k < length (workers s)
                    \<and> job_video_id (workers s ! k) = i)
            \<and> i \<notin> set (worker_ids (step videosDir s a)))
       \<and> (status_of s i = Some st \<and> (st \<noteq> ''pending'' \<or> i \<notin> set (worker_ids s)) \<longrightarrow>
            status_of (foldl (step videosDir) s as) i = Some st)"
proof -
  note c = reachable_consistent [OF assms]
  show ?thesis
    using step_created [of s i videosDir a] step_pending [of s i videosDir a]
      step_by_worker [OF c, of i videosDir a] run_settled [OF c, of i st videosDir as]
      terminal_has_no_worker [OF c, of i st]
    by blast
qed

lemma statuses_find: "statuses vs i = map_option Status (find (\<lambda>v. ID v = i) vs)"
  by (induction vs) (auto simp: statuses_def)

lemma busy_server_eq: "busy_server = \<lparr>world = uploaded_world, workers = [sample_job]\<rparr>"
  by (simp add: busy_server_def step_def fresh_server_def sample_upload)

lemma served_status: "status_of served sample_id = Some ''ready''"
proof -
  have h: "ffmpeg converts_second 2 = Exit0 ''converted''" "2 \<le> maxRetries"
    "job_input sample_job \<noteq> job_output sample_job" "(1::nat) \<le> 2"
    "\<forall>n. 1 \<le> n \<and> n < 2 \<longrightarrow> \<not> succeeded (ffmpeg converts_second n)"
    by (simp_all add: converts_second_def maxRetries_def sample_job_def)
  have u: "update_runs converts_second" by (simp add: converts_second_def)
  have j: "job_video_id sample_job = sample_id" by (simp add: sample_job_def)
  from loop_until_converted [OF h, of uploaded_world "job_video_id sample_job" "[]"]
  have "map_option Status (find_video (database (fst (transcode converts_second uploaded_world
          (job_video_id sample_job) (job_input sample_job) (job_output sample_job))))
          (job_video_id sample_job)) = Some ''ready''"
    using u uploaded_world_facts(3)
    by (auto simp: Let_def transcode_def option.map_comp comp_def)
  then show ?thesis
    by (simp add: served_def busy_server_eq step_def Let_def status_of_def statuses_find
        find_video_def j)
qed

theorem video_status_lifecycle_witness:
  "reachable ''videos'' busy_server
   \<and> status_of busy_server sample_id = Some ''pending''
   \<and> status_of served sample_id = Some ''ready''
   \<and> sample_id \<notin> set (worker_ids served)
   \<and> status_of (foldl (step ''videos'') served
         [DoWorker 0 never_converts, DoUpload calm (upload_of ''conv-1'' ''test.mp4'')]) sample_id
       = Some ''ready''"
proof -
  have r0: "reachable ''videos'' fresh_server"
    by (rule reach_start) (simp add: initial_def fresh_server_def)
  have r1: "reachable ''videos'' busy_server"
    unfolding busy_server_def by (rule reach_step [OF r0])
  have r2: "reachable ''videos'' served"
    unfolding served_def by (rule reach_step [OF r1])
  have p: "status_of busy_server sample_id = Some ''pending''"
    using uploaded_world_facts(3)
    by (simp add: busy_server_eq status_of_def statuses_find find_video_def sample_job_def)
  note q = served_status
  have ne: "Some ''ready'' \<noteq> Some ''pending''" by simp
  from video_status_lifecycle [OF r1, of sample_id "DoWorker 0 converts_second"] p q ne
  have a: "sample_id \<notin> set (worker_ids served)"
    unfolding served_def [symmetric] by metis
  from video_status_lifecycle [OF r2, of sample_id _ "''ready''"
      "[DoWorker 0 never_converts, DoUpload calm (upload_of ''conv-1'' ''test.mp4'')]"] q
  have b: "status_of (foldl (step ''videos'') served
         [DoWorker 0 never_converts, DoUpload calm (upload_of ''conv-1'' ''test.mp4'')]) sample_id
       = Some ''ready''"
    by simp
  from r1 p q a b show ?thesis by simp
qed

end
